theory Spec2Isabelle
  imports Complex_Main "HOL-Library.AList"
begin

section \<open>Performance records and the confidence score\<close>

text \<open>
  The four forecast categories are the keys \<^verbatim>\<open>'single_double'\<close>, \<^verbatim>\<open>'big_small'\<close>,
  \<^verbatim>\<open>'kill_group'\<close> and \<^verbatim>\<open>'double_group'\<close> of every per-category dictionary of
  \<^verbatim>\<open>PredictorModel\<close> and \<^verbatim>\<open>AlgorithmSwitcher\<close>.
\<close>

datatype pred_type = single_double | big_small | kill_group | double_group

text \<open>
  The per-algorithm dictionary built in \<^verbatim>\<open>PredictorModel.__init__\<close>. Python's unbounded
  integers are \<open>int\<close>; Python's floats are idealised as \<open>real\<close> (exact arithmetic,
  no rounding, no NaN).
\<close>

record perf =
  total_predictions :: int
  correct_predictions :: int
  recent_results :: "int list"
  consecutive_correct :: int
  consecutive_wrong :: int
  last_switch_time :: int
  success_rate :: real
  recent_success_rate :: real
  confidence_score :: real

text \<open>The record every (category, algorithm) starts with (\<^verbatim>\<open>PredictorModel.__init__\<close>).\<close>

definition initial_perf :: perf where
  "initial_perf =
     \<lparr>total_predictions = 0, correct_predictions = 0, recent_results = [],
      consecutive_correct = 0, consecutive_wrong = 0, last_switch_time = 0,
      success_rate = 0.5, recent_success_rate = 0.5, confidence_score = 0.5\<rparr>"

text \<open>\<^verbatim>\<open>prediction_utils.calculate_confidence_score\<close>, line by line.\<close>

definition calculate_confidence_score :: "perf \<Rightarrow> real" where
  "calculate_confidence_score p =
     (let base_confidence = success_rate p * 0.4 + recent_success_rate p * 0.6;
          correct_bonus = min (real_of_int (consecutive_correct p) * 0.05) 0.2;
          wrong_penalty = min (real_of_int (consecutive_wrong p) * 0.1) 0.3;
          experience_factor = min (real_of_int (total_predictions p) / 50) 1 * 0.1;
          confidence = base_confidence + correct_bonus - wrong_penalty + experience_factor
      in max 0.1 (min 0.95 confidence))"

text \<open>The formula in the words of the specification, with its own \<open>clamp\<close>.\<close>

definition clamp :: "real \<Rightarrow> real \<Rightarrow> real \<Rightarrow> real" where
  "clamp x lo hi = (if x < lo then lo else if hi < x then hi else x)"

definition spec_confidence :: "perf \<Rightarrow> real" where
  "spec_confidence p =
     clamp (success_rate p * 0.4 + recent_success_rate p * 0.6
            + min (real_of_int (consecutive_correct p) * 0.05) 0.2
            - min (real_of_int (consecutive_wrong p) * 0.1) 0.3
            + min (real_of_int (total_predictions p) / 50) 1 * 0.1) 0.1 0.95"

text \<open>
  \<^verbatim>\<open>switch_config['max_recent_results']\<close> of \<^verbatim>\<open>AlgorithmSwitcher.__init__\<close>.
\<close>

definition max_recent_results :: nat where
  "max_recent_results = 20"

datatype error = ZeroDivisionError | KeyError

text \<open>
  The part of \<^verbatim>\<open>PredictorModel.update_algorithm_performance\<close> that works on the
  record \<^verbatim>\<open>perf\<close> (lines 198 to 221). The dictionary is mutated in place, so the
  function returns the record as the call leaves it together with the exception the
  call raised, if any: the division \<^verbatim>\<open>correct_predictions / total_predictions\<close> raises
  when the incremented total is zero, after the counters and the window were written.
\<close>

definition record_outcome :: "perf \<Rightarrow> bool \<Rightarrow> perf \<times> error option" where
  "record_outcome p is_correct =
     (let p1 = p\<lparr>total_predictions := total_predictions p + 1\<rparr>;
          p2 = (if is_correct
                then p1\<lparr>correct_predictions := correct_predictions p1 + 1,
                        consecutive_correct := consecutive_correct p1 + 1,
                        consecutive_wrong := 0\<rparr>
                else p1\<lparr>consecutive_wrong := consecutive_wrong p1 + 1,
                        consecutive_correct := 0\<rparr>);
          appended = recent_results p2 @ [if is_correct then 1 else 0];
          p3 = p2\<lparr>recent_results :=
                    (if length appended > max_recent_results then tl appended else appended)\<rparr>
      in if total_predictions p3 = 0 then (p3, Some ZeroDivisionError)
         else
           let p4 = p3\<lparr>success_rate :=
                         real_of_int (correct_predictions p3) / real_of_int (total_predictions p3)\<rparr>;
               recent_correct = sum_list (recent_results p4);
               recent_total = length (recent_results p4);
               p5 = p4\<lparr>recent_success_rate :=
                         (if recent_total > 0
                          then real_of_int recent_correct / real recent_total else 0.5)\<rparr>;
               p6 = p5\<lparr>confidence_score := calculate_confidence_score p5\<rparr>
           in (p6, None))"

text \<open>A sequence of calls on one record; a raised exception does not undo the mutation.\<close>

fun record_outcomes :: "perf \<Rightarrow> bool list \<Rightarrow> perf" where
  "record_outcomes p [] = p"
| "record_outcomes p (b # bs) = record_outcomes (fst (record_outcome p b)) bs"

section \<open>The switch decision\<close>

text \<open>
  The state of \<^verbatim>\<open>AlgorithmSwitcher\<close> that the decision and the forecast read or write.
  A switch record keeps the fields of the dictionary built in
  \<^verbatim>\<open>select_next_algorithm\<close> apart from the wall-clock time; \<^verbatim>\<open>performance_memory\<close>
  is kept without its time stamps.
\<close>

record switch_record =
  from_algo :: int
  to_algo :: int
  old_success_rate :: real
  old_confidence :: real
  new_success_rate :: real
  new_confidence :: real

record switcher =
  force_exploration :: bool
  forced_exploration_done :: "pred_type \<Rightarrow> bool"
  algorithm_switch_history :: "pred_type \<Rightarrow> switch_record list"
  algorithm_trends :: "pred_type \<Rightarrow> (int \<rightharpoonup> real list)"
  performance_memory :: "pred_type \<Rightarrow> (int \<rightharpoonup> real list)"
  rotation_counter :: "pred_type \<Rightarrow> int"

text \<open>\<^verbatim>\<open>AlgorithmSwitcher.__init__\<close>.\<close>

definition initial_switcher :: switcher where
  "initial_switcher =
     \<lparr>force_exploration = False,
      forced_exploration_done = (\<lambda>_. False),
      algorithm_switch_history = (\<lambda>_. []),
      algorithm_trends = (\<lambda>_. [1 \<mapsto> [], 2 \<mapsto> [], 3 \<mapsto> []]),
      performance_memory = (\<lambda>_. [1 \<mapsto> [], 2 \<mapsto> [], 3 \<mapsto> []]),
      rotation_counter = (\<lambda>_. 0)\<rparr>"

text \<open>The entries of \<^verbatim>\<open>switch_config\<close> that the decision reads.\<close>

definition min_predictions_before_switch :: int where
  "min_predictions_before_switch = 5"

definition max_consecutive_errors :: int where
  "max_consecutive_errors = 3"

definition min_confidence_score :: real where
  "min_confidence_score = 0.4"

definition min_recent_success_rate :: real where
  "min_recent_success_rate = 0.4"

definition exploration_probability :: real where
  "exploration_probability = 0.2"

definition exploration_threshold :: int where
  "exploration_threshold = 10"

text \<open>
  The reasons returned by \<^verbatim>\<open>should_switch_algorithm\<close>, one constructor per string of the
  source, carrying the value the f-string formats. \<open>reason_literal\<close> is the literal text
  of each reason as Python sees it, a list of Unicode code points, up to its first
  formatted field.
\<close>

datatype reason =
    DataInsufficient
  | TooManyConsecutiveErrors int
  | ConfidenceTooLow real
  | RecentSuccessRateLow real
  | PerformanceDeclining
  | AlgorithmExploration
  | RunningNormally

fun reason_literal :: "reason \<Rightarrow> nat list" where
  "reason_literal DataInsufficient = [0x6570, 0x636E, 0x4E0D, 0x8DB3]"
| "reason_literal (TooManyConsecutiveErrors n) =
     [0x8FDE, 0x7EED, 0x9519, 0x8BEF, 0x6B21, 0x6570, 0x8FC7, 0x591A, 0x3A, 0x20]"
| "reason_literal (ConfidenceTooLow c) = [0x7F6E, 0x4FE1, 0x5EA6, 0x8FC7, 0x4F4E, 0x3A, 0x20]"
| "reason_literal (RecentSuccessRateLow r) =
     [0x6700, 0x8FD1, 0x6210, 0x529F, 0x7387, 0x4F4E, 0x3A, 0x20]"
| "reason_literal PerformanceDeclining = [0x6027, 0x80FD, 0x6301, 0x7EED, 0x4E0B, 0x964D]"
| "reason_literal AlgorithmExploration = [0x7B97, 0x6CD5, 0x63A2, 0x7D22]"
| "reason_literal RunningNormally = [0x7B97, 0x6CD5, 0x8FD0, 0x884C, 0x6B63, 0x5E38]"

text \<open>
  The sort key of \<^verbatim>\<open>_select_next_algorithm\<close>:
  \<^verbatim>\<open>perf_data.get(a, {}).get('confidence_score', 0)\<close>.
\<close>

definition confidence_key :: "(int \<rightharpoonup> perf) \<Rightarrow> int \<Rightarrow> real" where
  "confidence_key perf_data a = (case perf_data a of None \<Rightarrow> 0 | Some p \<Rightarrow> confidence_score p)"

text \<open>The \<^verbatim>\<open>except\<close> branch of \<^verbatim>\<open>_select_next_algorithm\<close>.\<close>

definition fallback_next_algorithm :: "int \<Rightarrow> int" where
  "fallback_next_algorithm current_algo = current_algo mod 3 + 1"

text \<open>
  \<^verbatim>\<open>AlgorithmSwitcher._select_next_algorithm\<close>. Python's \<^verbatim>\<open>sorted(..., reverse=True)\<close> is
  stable and keeps equal keys in their original order: it is the stable sort by the
  negated key. Indexing an empty sorted list would raise inside the \<^verbatim>\<open>try\<close>, which the
  \<^verbatim>\<open>except\<close> branch answers.
\<close>

definition priv_select_next_algorithm :: "pred_type \<Rightarrow> int \<Rightarrow> (int \<rightharpoonup> perf) \<Rightarrow> int" where
  "priv_select_next_algorithm pt current_algo perf_data =
     (let all_algos = [1, 2, 3];
          other_algos = filter (\<lambda>algo. algo \<noteq> current_algo) all_algos
      in if other_algos = [] then current_algo
         else
           let sorted_algos = sort_key (\<lambda>a. - confidence_key perf_data a) other_algos
           in case sorted_algos of
                [] \<Rightarrow> fallback_next_algorithm current_algo
              | next_algo # _ \<Rightarrow> next_algo)"

text \<open>\<^verbatim>\<open>all(trend[i] < trend[i-1] for i in range(1, len(trend)))\<close>.\<close>

fun all_declining :: "real list \<Rightarrow> bool" where
  "all_declining (x # y # ys) = (y < x \<and> all_declining (y # ys))"
| "all_declining [x] = True"
| "all_declining [] = True"

text \<open>
  \<^verbatim>\<open>AlgorithmSwitcher.should_switch_algorithm\<close>. \<open>rnd\<close> is the value that
  \<^verbatim>\<open>random.random()\<close> returns when the code draws it. A missing record reads as the
  defaults of the \<^verbatim>\<open>.get\<close> calls. With numeric fields nothing in the \<^verbatim>\<open>try\<close> raises.
\<close>

definition should_switch_algorithm ::
  "switcher \<Rightarrow> real \<Rightarrow> pred_type \<Rightarrow> int \<Rightarrow> (int \<rightharpoonup> perf) \<Rightarrow> int \<times> reason" where
  "should_switch_algorithm sw rnd pt current_algo perf_data =
     (let current_perf = perf_data current_algo;
          total = (case current_perf of None \<Rightarrow> 0 | Some p \<Rightarrow> total_predictions p)
      in if total < min_predictions_before_switch then (current_algo, DataInsufficient)
      else
        let consecutive_wrong' =
              (case current_perf of None \<Rightarrow> 0 | Some p \<Rightarrow> consecutive_wrong p)
        in if consecutive_wrong' \<ge> max_consecutive_errors
           then (priv_select_next_algorithm pt current_algo perf_data,
                 TooManyConsecutiveErrors consecutive_wrong')
        else
          let confidence_score' =
                (case current_perf of None \<Rightarrow> 0.5 | Some p \<Rightarrow> confidence_score p)
          in if confidence_score' < min_confidence_score
             then (priv_select_next_algorithm pt current_algo perf_data,
                   ConfidenceTooLow confidence_score')
          else
            let recent_success_rate' =
                  (case current_perf of None \<Rightarrow> 0.5 | Some p \<Rightarrow> recent_success_rate p)
            in if recent_success_rate' < min_recent_success_rate
               then (priv_select_next_algorithm pt current_algo perf_data,
                     RecentSuccessRateLow recent_success_rate')
            else
              let trend = (case algorithm_trends sw pt current_algo of
                             None \<Rightarrow> [] | Some t \<Rightarrow> t)
              in if length trend \<ge> 3 \<and> all_declining trend
                 then (priv_select_next_algorithm pt current_algo perf_data,
                       PerformanceDeclining)
              else if force_exploration sw
                      \<or> (rnd < exploration_probability \<and> total > exploration_threshold)
                 then (priv_select_next_algorithm pt current_algo perf_data,
                       AlgorithmExploration)
              else (current_algo, RunningNormally))"

text \<open>
  \<^verbatim>\<open>AlgorithmSwitcher.update_algorithm_trends\<close>, lines 247 to 258: the switcher as
  the call leaves it and the exception raised, if any. A category's dictionaries hold the
  keys 1, 2 and 3; any other algorithm number raises. The timed persistence check that
  follows only logs.
\<close>

definition push_bounded :: "nat \<Rightarrow> 'a \<Rightarrow> 'a list \<Rightarrow> 'a list" where
  "push_bounded cap v xs = (let ys = xs @ [v] in if length ys > cap then tl ys else ys)"

definition update_algorithm_trends ::
  "switcher \<Rightarrow> pred_type \<Rightarrow> int \<Rightarrow> real \<Rightarrow> switcher \<times> error option" where
  "update_algorithm_trends sw pt algo_num performance_value =
     (case algorithm_trends sw pt algo_num of
        None \<Rightarrow> (sw, Some KeyError)
      | Some trend \<Rightarrow>
          let sw1 = sw\<lparr>algorithm_trends := (algorithm_trends sw)
                        (pt := (algorithm_trends sw pt)
                           (algo_num \<mapsto> push_bounded 20 performance_value trend))\<rparr>
          in (case performance_memory sw1 pt algo_num of
                None \<Rightarrow> (sw1, Some KeyError)
              | Some memory \<Rightarrow>
                  (sw1\<lparr>performance_memory := (performance_memory sw1)
                         (pt := (performance_memory sw1 pt)
                            (algo_num \<mapsto> push_bounded 10 performance_value memory))\<rparr>,
                   None)))"

text \<open>\<^verbatim>\<open>AlgorithmSwitcher.reset_forced_exploration\<close>.\<close>

definition reset_forced_exploration :: "switcher \<Rightarrow> switcher" where
  "reset_forced_exploration sw = sw\<lparr>forced_exploration_done := (\<lambda>_. False)\<rparr>"

text \<open>
  The bookkeeping at the end of \<^verbatim>\<open>AlgorithmSwitcher.select_next_algorithm\<close> (lines 374
  to 394), the only place of the repository that writes \<^verbatim>\<open>algorithm_switch_history\<close>:
  the record is appended and the oldest one leaves once there are more than 50.
\<close>

definition append_switch_history :: "switcher \<Rightarrow> pred_type \<Rightarrow> switch_record \<Rightarrow> switcher" where
  "append_switch_history sw pt switch_rec =
     sw\<lparr>algorithm_switch_history := (algorithm_switch_history sw)
           (pt := push_bounded 50 switch_rec (algorithm_switch_history sw pt))\<rparr>"

section \<open>The forecast of a period and its cache\<close>

text \<open>
  A history row, as far as \<^verbatim>\<open>calculate_prediction\<close> looks into it: \<open>qihao_value\<close> is the
  result of \<^verbatim>\<open>int(records[0][1])\<close>, \<open>None\<close> when the conversion raises; the remaining
  columns are read by the forecasting functions only. A period identifier is the decimal
  string of an integer, so the model keys by the integer.
\<close>

record lottery_record =
  qihao_value :: "int option"
  draw_columns :: "int list"

text \<open>
  A row of the table \<^verbatim>\<open>prediction_cache\<close> of \<^verbatim>\<open>db_manager\<close>: the columns
  \<^verbatim>\<open>prediction\<close> and \<^verbatim>\<open>algorithm_used\<close>; the latter is the text
  \<^verbatim>\<open>json.dumps({prediction_type: current_algo})\<close>, kept as the pair it encodes.
\<close>

record cache_row =
  cached_prediction :: string
  cached_algorithm_used :: "pred_type \<times> int"

text \<open>
  The entry \<^verbatim>\<open>'switch_info'\<close> of the returned dictionary: the key is absent, or bound to
  \<^verbatim>\<open>None\<close>, or bound to the dictionary of \<^verbatim>\<open>from_algo\<close>, \<^verbatim>\<open>to_algo\<close> and \<^verbatim>\<open>reason\<close>.
\<close>

datatype switch_info_field = KeyAbsent | NoneValue | SwitchInfo int int reason

record prediction_result =
  qihao :: int
  prediction :: string
  prediction_type :: pred_type
  algorithm_used :: "pred_type \<times> int"
  switch_info :: switch_info_field

text \<open>
  The state of \<^verbatim>\<open>PredictorModel\<close> together with the cache table of the store.
  \<open>forecast_calls\<close> is not a field of the source:
  it counts the calls of \<^verbatim>\<open>self.predict\<close>, so that a statement can say that none was made.
  \<^verbatim>\<open>switch_counters\<close> is created on first use with zeros; the model starts it at zero.
\<close>

record predictor =
  current_algorithms :: "pred_type \<Rightarrow> int"
  algorithm_performance :: "pred_type \<Rightarrow> (int \<rightharpoonup> perf)"
  last_used_algorithms :: "pred_type \<Rightarrow> (int \<rightharpoonup> int)"
  switch_counters :: "pred_type \<Rightarrow> int"
  algorithm_switcher :: switcher
  prediction_cache :: "int \<times> pred_type \<rightharpoonup> cache_row"
  forecast_calls :: nat

text \<open>\<^verbatim>\<open>PredictorModel.__init__\<close> with nothing loaded and an empty cache table.\<close>

definition initial_predictor :: predictor where
  "initial_predictor =
     \<lparr>current_algorithms = (\<lambda>_. 1),
      algorithm_performance =
        (\<lambda>_. [1 \<mapsto> initial_perf, 2 \<mapsto> initial_perf, 3 \<mapsto> initial_perf]),
      last_used_algorithms = (\<lambda>_. Map.empty),
      switch_counters = (\<lambda>_. 0),
      algorithm_switcher = initial_switcher,
      prediction_cache = Map.empty,
      forecast_calls = 0\<rparr>"

text \<open>
  \<^verbatim>\<open>PredictorModel.update_algorithm_performance\<close> on the whole state: the record of
  the category and algorithm is updated in place, then the recent success rate is pushed
  to the trend series. The timed save that follows writes to the store only.
\<close>

definition update_algorithm_performance ::
  "predictor \<Rightarrow> pred_type \<Rightarrow> int \<Rightarrow> bool \<Rightarrow> predictor \<times> error option" where
  "update_algorithm_performance s pt algo_num is_correct =
     (case algorithm_performance s pt algo_num of
        None \<Rightarrow> (s, Some KeyError)
      | Some p \<Rightarrow>
          let outcome = record_outcome p is_correct;
              s1 = s\<lparr>algorithm_performance := (algorithm_performance s)
                      (pt := (algorithm_performance s pt)(algo_num \<mapsto> fst outcome))\<rparr>
          in (case snd outcome of
                Some e \<Rightarrow> (s1, Some e)
              | None \<Rightarrow>
                  let trends = update_algorithm_trends (algorithm_switcher s1) pt algo_num
                                 (recent_success_rate (fst outcome))
                  in (s1\<lparr>algorithm_switcher := fst trends\<rparr>, snd trends)))"

text \<open>
  \<^verbatim>\<open>PredictorModel.predict\<close> with the forecasting formulas behind it: category, algorithm
  in force and history to the forecast text, \<open>None\<close> when it fails.
\<close>

type_synonym forecaster = "pred_type \<Rightarrow> int \<Rightarrow> lottery_record list \<Rightarrow> string option"

text \<open>
  The switch step of \<^verbatim>\<open>calculate_prediction\<close> (lines 279 to 318): the state after it, the
  algorithm in force and the switch information.
\<close>

definition switch_step ::
  "real \<Rightarrow> predictor \<Rightarrow> pred_type \<Rightarrow> predictor \<times> int \<times> switch_info_field" where
  "switch_step rnd s pt =
     (let current_algo = current_algorithms s pt
      in if pt = big_small
         then (s\<lparr>current_algorithms := (current_algorithms s)(pt := 1)\<rparr>, 1, KeyAbsent)
         else
           let s1 = (if switch_counters s pt \<ge> 100
                     then s\<lparr>algorithm_switcher := reset_forced_exploration (algorithm_switcher s),
                            switch_counters := (switch_counters s)(pt := 0)\<rparr>
                     else s);
               decision = should_switch_algorithm (algorithm_switcher s1) rnd pt current_algo
                            (algorithm_performance s1 pt);
               new_algo = fst decision;
               switch_reason = snd decision
           in if new_algo \<noteq> current_algo
              then (s1\<lparr>current_algorithms := (current_algorithms s1)(pt := new_algo)\<rparr>,
                    new_algo, SwitchInfo current_algo new_algo switch_reason)
              else (s1, current_algo, KeyAbsent))"

text \<open>
  Lines 240 and 241 of \<^verbatim>\<open>calculate_prediction\<close>: the period after the latest one of the
  history. An empty history or a period that is not a number raises.
\<close>

definition next_qihao_of :: "lottery_record list \<Rightarrow> int option" where
  "next_qihao_of records =
     (case records of
        [] \<Rightarrow> None
      | latest # _ \<Rightarrow>
          (case qihao_value latest of
             None \<Rightarrow> None
           | Some latest_qihao \<Rightarrow> Some (latest_qihao + 1)))"

text \<open>
  \<^verbatim>\<open>db_manager.get_cached_prediction\<close>: the row of the period and category, if the query
  was answered; a query that fails is caught in \<^verbatim>\<open>execute_query\<close>, which returns no
  rows, and the caller sees \<^verbatim>\<open>None\<close>. \<open>answered\<close> says which of the two happens.
\<close>

definition get_cached_prediction ::
  "bool \<Rightarrow> predictor \<Rightarrow> int \<Rightarrow> pred_type \<Rightarrow> cache_row option" where
  "get_cached_prediction answered s q pt =
     (if answered then prediction_cache s (q, pt) else None)"

text \<open>
  \<^verbatim>\<open>db_manager.cache_prediction\<close> (\<^verbatim>\<open>save_prediction_cache\<close>): the row is inserted, or
  updated when the period and category have one; a statement that fails is caught, the
  table stays as it was and the caller, which ignores the returned flag, goes on.
  \<open>performed\<close> says which of the two happens.
\<close>

definition cache_prediction ::
  "bool \<Rightarrow> predictor \<Rightarrow> int \<Rightarrow> pred_type \<Rightarrow> cache_row \<Rightarrow> predictor" where
  "cache_prediction performed s q pt row =
     (if performed then s\<lparr>prediction_cache := (prediction_cache s)((q, pt) \<mapsto> row)\<rparr> else s)"

text \<open>
  \<^verbatim>\<open>PredictorModel.calculate_prediction\<close>. When the next period cannot be computed the
  exception is caught and the call returns \<^verbatim>\<open>None\<close>. \<open>rnd\<close> is the random draw of the
  switch decision; \<open>read_ok\<close> and \<open>write_ok\<close> say whether the store answers the cache
  read and performs the cache write of this call.
\<close>

definition calculate_prediction ::
  "forecaster \<Rightarrow> real \<Rightarrow> bool \<Rightarrow> bool \<Rightarrow> predictor \<Rightarrow> lottery_record list \<Rightarrow> pred_type
     \<Rightarrow> prediction_result option \<times> predictor" where
  "calculate_prediction predict rnd read_ok write_ok s records pt =
     (case next_qihao_of records of
        None \<Rightarrow> (None, s)
      | Some next_qihao \<Rightarrow>
          (case get_cached_prediction read_ok s next_qihao pt of
             Some row \<Rightarrow>
               (Some \<lparr>qihao = next_qihao, prediction = cached_prediction row,
                      prediction_type = pt,
                      algorithm_used = cached_algorithm_used row,
                      switch_info = NoneValue\<rparr>, s)
           | None \<Rightarrow>
               let s1 = s\<lparr>switch_counters :=
                            (switch_counters s)(pt := switch_counters s pt + 1)\<rparr>;
                   step = switch_step rnd s1 pt;
                   s2 = fst step;
                   current_algo = fst (snd step);
                   info = snd (snd step);
                   s3 = s2\<lparr>last_used_algorithms := (last_used_algorithms s2)
                          (pt := (last_used_algorithms s2 pt)
                             (next_qihao \<mapsto> current_algo))\<rparr>;
                   s4 = s3\<lparr>forecast_calls := forecast_calls s3 + 1\<rparr>;
                   prediction_content = predict pt (current_algorithms s4 pt) records
               in (case prediction_content of
                     None \<Rightarrow> (None, s4)
                   | Some content \<Rightarrow>
                       if content = [] then (None, s4)
                       else
                         (Some \<lparr>qihao = next_qihao, prediction = content,
                                prediction_type = pt,
                                algorithm_used = (pt, current_algo),
                                switch_info = info\<rparr>,
                          cache_prediction write_ok s4 next_qihao pt
                            \<lparr>cached_prediction = content,
                             cached_algorithm_used = (pt, current_algo)\<rparr>))))"

text \<open>
  What can happen to a predictor between two forecast calls for one period: a
  verification (\<^verbatim>\<open>update_algorithm_performance\<close>) or another forecast call. A sequence
  of them is applied from left to right; a raised exception leaves the state as far as
  the call got.
\<close>

datatype event =
    Verification pred_type int bool
  | Forecast forecaster real bool bool "lottery_record list" pred_type

fun apply_event :: "predictor \<Rightarrow> event \<Rightarrow> predictor" where
  "apply_event s (Verification pt algo_num is_correct) =
     fst (update_algorithm_performance s pt algo_num is_correct)"
| "apply_event s (Forecast predict rnd read_ok write_ok records pt) =
     snd (calculate_prediction predict rnd read_ok write_ok s records pt)"

fun apply_events :: "predictor \<Rightarrow> event list \<Rightarrow> predictor" where
  "apply_events s [] = s"
| "apply_events s (e # es) = apply_events (apply_event s e) es"

text \<open>
  An event that does not compute the forecast of the period and category \<open>key\<close> anew:
  a verification, a forecast call for another period or category, or a forecast call
  whose cache read the store answers.
\<close>

fun keeps_row :: "int \<times> pred_type \<Rightarrow> event \<Rightarrow> bool" where
  "keeps_row key (Verification pt algo_num is_correct) = True"
| "keeps_row key (Forecast predict rnd read_ok write_ok records pt) =
     (read_ok \<or> next_qihao_of records \<noteq> Some (fst key) \<or> pt \<noteq> snd key)"

section \<open>The Q-value table\<close>

text \<open>
  The learning parameters and the table of \<^verbatim>\<open>ReinforcementLearner\<close>. A row is a Python
  dictionary from algorithm number to value; it is an association list in insertion
  order.
\<close>

record learner =
  learning_rate :: real
  discount_factor :: real
  exploration_rate :: real
  q_table :: "string \<rightharpoonup> (int \<times> real) list"

definition initial_learner :: learner where
  "initial_learner =
     \<lparr>learning_rate = 0.05, discount_factor = 0.95, exploration_rate = 0.2,
      q_table = Map.empty\<rparr>"

text \<open>The row \<^verbatim>\<open>{1: 0.5, 2: 0.5, 3: 0.5}\<close>.\<close>

definition initial_row :: "(int \<times> real) list" where
  "initial_row = [(1, 0.5), (2, 0.5), (3, 0.5)]"

text \<open>The two \<^verbatim>\<open>not in self.q_table\<close> tests at the head of \<^verbatim>\<open>update_q_values\<close>.\<close>

definition ensure_rows ::
  "(string \<rightharpoonup> (int \<times> real) list) \<Rightarrow> string \<Rightarrow> string \<Rightarrow> (string \<rightharpoonup> (int \<times> real) list)" where
  "ensure_rows q state next_state =
     (let q1 = (case q state of None \<Rightarrow> q(state \<mapsto> initial_row) | Some _ \<Rightarrow> q)
      in case q1 next_state of None \<Rightarrow> q1(next_state \<mapsto> initial_row) | Some _ \<Rightarrow> q1)"

text \<open>
  \<^verbatim>\<open>ReinforcementLearner.update_q_values\<close>. \<^verbatim>\<open>max\<close> of an empty row raises; the \<^verbatim>\<open>except\<close>
  branch logs it and the table stays as the two tests left it. The occasional
  \<^verbatim>\<open>save_model\<close> writes a file and does not change the learner.
\<close>

definition update_q_values :: "learner \<Rightarrow> string \<Rightarrow> int \<Rightarrow> real \<Rightarrow> string \<Rightarrow> learner" where
  "update_q_values L state action reward next_state =
     (let q2 = ensure_rows (q_table L) state next_state
      in case q2 state of
           None \<Rightarrow> L\<lparr>q_table := q2\<rparr>
         | Some row \<Rightarrow>
             let current_q = (case map_of row action of None \<Rightarrow> 0.5 | Some v \<Rightarrow> v)
             in (case q2 next_state of
                   None \<Rightarrow> L\<lparr>q_table := q2\<rparr>
                 | Some next_row \<Rightarrow>
                     (case map snd next_row of
                        [] \<Rightarrow> L\<lparr>q_table := q2\<rparr>
                      | v # vs \<Rightarrow>
                          let max_next_q = foldl max v vs;
                              new_q = current_q + learning_rate L
                                        * (reward + discount_factor L * max_next_q - current_q)
                          in L\<lparr>q_table := q2(state \<mapsto> AList.update action new_q row)\<rparr>)))"

text \<open>The entry \<^verbatim>\<open>Q[state][action]\<close> of a table, when the row and the key exist.\<close>

definition q_entry :: "(string \<rightharpoonup> (int \<times> real) list) \<Rightarrow> string \<Rightarrow> int \<Rightarrow> real option" where
  "q_entry q state action = (case q state of None \<Rightarrow> None | Some row \<Rightarrow> map_of row action)"

text \<open>
  Every row of the table has a value for each of the algorithms 1, 2 and 3, as every row
  that \<^verbatim>\<open>update_q_values\<close> or \<^verbatim>\<open>select_algorithm\<close> (with its default list) creates has.
\<close>

definition q_rows_complete :: "(string \<rightharpoonup> (int \<times> real) list) \<Rightarrow> bool" where
  "q_rows_complete q =
     (\<forall>state row. q state = Some row \<longrightarrow> (\<forall>a\<in>{1, 2, 3}. map_of row a \<noteq> None))"

section \<open>Records and states of the scenarios\<close>

text \<open>
  "Three consecutive declines at the end of the series", in the words of the
  specification: each of the last three steps of the series goes down.
\<close>

definition ends_with_three_declines :: "real list \<Rightarrow> bool" where
  "ends_with_three_declines trend =
     (case rev trend of d # c # b # a # _ \<Rightarrow> d < c \<and> c < b \<and> b < a | _ \<Rightarrow> False)"

definition perf_table :: "perf \<Rightarrow> perf \<Rightarrow> perf \<Rightarrow> (int \<rightharpoonup> perf)" where
  "perf_table p1 p2 p3 = [1 \<mapsto> p1, 2 \<mapsto> p2, 3 \<mapsto> p3]"

definition sparse_perf :: perf where
  "sparse_perf = initial_perf\<lparr>total_predictions := 2, consecutive_wrong := 7,
                              confidence_score := 0.1\<rparr>"

definition scenario_perf :: perf where
  "scenario_perf =
     \<lparr>total_predictions = 10, correct_predictions = 2, recent_results = [0, 0, 0, 0, 1],
      consecutive_correct = 0, consecutive_wrong = 3, last_switch_time = 0,
      success_rate = 0.2, recent_success_rate = 0.2, confidence_score = 0.1\<rparr>"

definition steady_perf :: perf where
  "steady_perf =
     \<lparr>total_predictions = 8, correct_predictions = 5, recent_results = [1, 0, 1, 1, 0, 1, 1, 0],
      consecutive_correct = 0, consecutive_wrong = 1, last_switch_time = 0,
      success_rate = 0.625, recent_success_rate = 0.625, confidence_score = 0.541\<rparr>"

definition trends_of :: "real list \<Rightarrow> switcher" where
  "trends_of trend =
     initial_switcher\<lparr>algorithm_trends := (\<lambda>_. [1 \<mapsto> trend, 2 \<mapsto> [], 3 \<mapsto> []])\<rparr>"

definition failing_predictor :: predictor where
  "failing_predictor =
     initial_predictor\<lparr>algorithm_performance :=
       (\<lambda>_. perf_table scenario_perf initial_perf initial_perf)\<rparr>"

definition one_record :: "lottery_record list" where
  "one_record = [\<lparr>qihao_value = Some 3301234, draw_columns = [4, 7, 9]\<rparr>]"

definition longer_history :: "lottery_record list" where
  "longer_history =
     [\<lparr>qihao_value = Some 3301234, draw_columns = [4, 7, 9]\<rparr>,
      \<lparr>qihao_value = Some 3301233, draw_columns = [1, 2, 3]\<rparr>]"

definition constant_forecaster :: forecaster where
  "constant_forecaster pt algo records = Some ''D''"

definition between_events :: "event list" where
  "between_events =
     [Verification kill_group 1 False,
      Forecast constant_forecaster 0.3 True True one_record single_double,
      Forecast constant_forecaster 0.3 True False one_record kill_group]"

section \<open>Properties of the performance record\<close>

lemma clamp_is_max_min: "lo \<le> hi \<Longrightarrow> clamp x lo hi = max lo (min hi x)"
  by (simp add: clamp_def max_def min_def)

lemma max_min_upper: "lo \<le> hi \<Longrightarrow> max lo (min hi x) \<le> (hi::real)"
  by (simp add: max_def min_def)

text \<open>
  C2: the confidence score computed by the code is the clamp, to the interval from 0.1
  to 0.95, of success_rate*0.4 + recent_success_rate*0.6 + min(consecutive_correct*0.05, 0.2)
  - min(consecutive_wrong*0.1, 0.3) + min(total_predictions/50, 1)*0.1, for every
  performance record, and so lies between 0.1 and 0.95.
\<close>

theorem confidence_score_formula_and_bounds:
  "calculate_confidence_score p = spec_confidence p
   \<and> 0.1 \<le> calculate_confidence_score p \<and> calculate_confidence_score p \<le> 0.95"
proof -
  have eq: "calculate_confidence_score p = spec_confidence p"
    unfolding calculate_confidence_score_def spec_confidence_def Let_def
    by (subst clamp_is_max_min) simp_all
  have lo: "0.1 \<le> calculate_confidence_score p"
    unfolding calculate_confidence_score_def Let_def by (rule max.cobounded1)
  have hi: "calculate_confidence_score p \<le> 0.95"
    unfolding calculate_confidence_score_def Let_def by (rule max_min_upper) simp
  from eq lo hi show ?thesis by simp
qed

lemma record_outcome_counters:
  "consecutive_correct (fst (record_outcome p b)) =
     (if b then consecutive_correct p + 1 else 0)"
  "consecutive_wrong (fst (record_outcome p b)) =
     (if b then 0 else consecutive_wrong p + 1)"
  by (simp_all add: record_outcome_def Let_def)

lemma record_outcome_recent:
  "recent_results (fst (record_outcome p b)) =
     (let appended = recent_results p @ [if b then 1 else 0]
      in if length appended > max_recent_results then tl appended else appended)"
  by (simp add: record_outcome_def Let_def)

lemma record_outcomes_snoc:
  "record_outcomes p (bs @ [b]) = fst (record_outcome (record_outcomes p bs) b)"
  by (induction bs arbitrary: p) simp_all

text \<open>
  C8: after one call of the performance-record update, for any prior record and either
  outcome, one of consecutive_correct and consecutive_wrong is 0: a correct outcome adds
  one to consecutive_correct and resets consecutive_wrong, an incorrect outcome does the
  inverse; so after any sequence of calls from the all-zero record the two counters are
  never both positive.
\<close>

theorem consecutive_counters_exclusive:
  "(consecutive_correct (fst (record_outcome p b)) = 0
      \<or> consecutive_wrong (fst (record_outcome p b)) = 0)
   \<and> consecutive_correct (fst (record_outcome p True)) = consecutive_correct p + 1
   \<and> consecutive_wrong (fst (record_outcome p True)) = 0
   \<and> consecutive_wrong (fst (record_outcome p False)) = consecutive_wrong p + 1
   \<and> consecutive_correct (fst (record_outcome p False)) = 0
   \<and> (consecutive_correct (record_outcomes initial_perf bs) = 0
        \<or> consecutive_wrong (record_outcomes initial_perf bs) = 0)"
proof -
  have step: "consecutive_correct (fst (record_outcome q c)) = 0
      \<or> consecutive_wrong (fst (record_outcome q c)) = 0" for q c
    by (cases c) (simp_all add: record_outcome_counters)
  have seq: "consecutive_correct (record_outcomes initial_perf bs) = 0
      \<or> consecutive_wrong (record_outcomes initial_perf bs) = 0"
  proof (cases bs rule: rev_cases)
    case Nil
    then show ?thesis by (simp add: initial_perf_def)
  next
    case (snoc cs c)
    then show ?thesis using step [of "record_outcomes initial_perf cs" c]
      by (simp only: record_outcomes_snoc)
  qed
  from step [of p b] seq show ?thesis
    by (simp add: record_outcome_counters)
qed

lemma record_outcome_recent_drop:
  "recent_results (fst (record_outcome p b)) =
     drop (min 1 (length (recent_results p) + 1 - max_recent_results))
          (recent_results p @ [if b then 1 else 0])"
proof (cases "length (recent_results p) + 1 > max_recent_results")
  case True
  then have m: "min 1 (length (recent_results p) + 1 - max_recent_results) = 1" by simp
  have t: "tl xs = drop 1 xs" for xs :: "int list" by (simp add: drop_Suc)
  from True have "recent_results (fst (record_outcome p b))
      = tl (recent_results p @ [if b then 1 else 0])"
    by (simp add: record_outcome_recent Let_def)
  then show ?thesis unfolding m t .
next
  case False
  then show ?thesis by (simp add: record_outcome_recent Let_def)
qed

lemma record_outcomes_recent_drop:
  "recent_results (record_outcomes p bs) =
     drop (min (length bs) (length (recent_results p) + length bs - max_recent_results))
          (recent_results p @ map (\<lambda>b. if b then 1 else 0) bs)"
proof (induction bs arbitrary: p)
  case Nil
  then show ?case by simp
next
  case (Cons b bs)
  let ?bit = "\<lambda>b. if b then 1 else (0::int)"
  let ?r = "recent_results p"
  show ?case
  proof (cases "length ?r + 1 > max_recent_results")
    case True
    then have r1: "recent_results (fst (record_outcome p b)) = drop 1 (?r @ [?bit b])"
      by (simp add: record_outcome_recent_drop)
    have len: "length (drop 1 (?r @ [?bit b])) = length ?r" by simp
    have app: "drop 1 (?r @ [?bit b]) @ map ?bit bs = drop 1 (?r @ ?bit b # map ?bit bs)"
      using True by (cases ?r) (simp_all add: max_recent_results_def)
    from True have m1: "min (length bs) (length ?r + length bs - max_recent_results) = length bs"
      by simp
    from True have m2:
      "min (length (b # bs)) (length ?r + length (b # bs) - max_recent_results) = Suc (length bs)"
      by simp
    show ?thesis
      unfolding record_outcomes.simps Cons.IH r1 len app m1 m2
      by (simp only: drop_drop list.map Suc_eq_plus1)
  next
    case False
    then have r1: "recent_results (fst (record_outcome p b)) = ?r @ [?bit b]"
      by (simp add: record_outcome_recent_drop)
    from False have m:
      "min (length bs) (length (?r @ [?bit b]) + length bs - max_recent_results)
       = min (length (b # bs)) (length ?r + length (b # bs) - max_recent_results)"
      by simp
    show ?thesis
      unfolding record_outcomes.simps Cons.IH r1 m by simp
  qed
qed

text \<open>
  C9: the window recent_results never holds more than 20 entries after any number of
  performance-record updates (from a record whose window is within the capacity, such as
  the empty one), the oldest entries leaving first; fed 25 outcomes, an initially empty
  record holds exactly the last 20 of them, the first 5 being gone.
\<close>

theorem recent_results_bounded_fifo:
  assumes "length (recent_results p) \<le> max_recent_results"
  shows "length (recent_results (record_outcomes p bs)) \<le> 20
    \<and> recent_results (record_outcomes p bs) =
        drop (length (recent_results p) + length bs - 20)
             (recent_results p @ map (\<lambda>b. if b then 1 else 0) bs)
    \<and> length (recent_results (record_outcomes initial_perf bs)) \<le> 20
    \<and> (length bs = 25 \<longrightarrow>
         length (recent_results (record_outcomes initial_perf bs)) = 20
         \<and> recent_results (record_outcomes initial_perf bs) =
             map (\<lambda>b. if b then 1 else 0) (drop 5 bs))"
proof -
  from assms have m: "min (length bs) (length (recent_results p) + length bs - max_recent_results)
      = length (recent_results p) + length bs - 20"
    by (simp add: max_recent_results_def)
  have eq: "recent_results (record_outcomes p bs) =
        drop (length (recent_results p) + length bs - 20)
             (recent_results p @ map (\<lambda>b. if b then 1 else 0) bs)"
    unfolding record_outcomes_recent_drop m ..
  have len: "length (recent_results (record_outcomes p bs)) \<le> 20"
    unfolding eq by simp
  have init: "recent_results (record_outcomes initial_perf bs) =
      drop (min (length bs) (length bs - 20)) (map (\<lambda>b. if b then 1 else 0) bs)"
    unfolding record_outcomes_recent_drop
    by (simp add: initial_perf_def max_recent_results_def)
  have s25: "length bs = 25 \<longrightarrow>
         length (recent_results (record_outcomes initial_perf bs)) = 20
         \<and> recent_results (record_outcomes initial_perf bs) =
             map (\<lambda>b. if b then 1 else 0) (drop 5 bs)"
    unfolding init by (simp add: drop_map)
  have len0: "length (recent_results (record_outcomes initial_perf bs)) \<le> 20"
    unfolding init by simp
  from len eq len0 s25 show ?thesis by blast
qed

theorem recent_results_bounded_fifo_witness:
  "length (recent_results initial_perf) \<le> max_recent_results
   \<and> length (recent_results (record_outcomes initial_perf (replicate 5 False @ replicate 20 True)))
       \<le> 20
   \<and> recent_results (record_outcomes initial_perf (replicate 5 False @ replicate 20 True)) =
       replicate 20 1"
proof -
  have h: "length (recent_results initial_perf) \<le> max_recent_results"
    by (simp add: initial_perf_def)
  have l: "length (replicate 5 False @ replicate 20 True) = 25" by simp
  have r: "recent_results initial_perf = []" by (simp add: initial_perf_def)
  from recent_results_bounded_fifo [OF h, of "replicate 5 False @ replicate 20 True"] l
  have "length (recent_results (record_outcomes initial_perf
           (replicate 5 False @ replicate 20 True))) \<le> 20
     \<and> recent_results (record_outcomes initial_perf (replicate 5 False @ replicate 20 True)) =
         map (\<lambda>b. if b then 1 else 0) (drop 5 (replicate 5 False @ replicate 20 True))"
    by blast
  then show ?thesis using h by (simp add: map_replicate_const)
qed

lemma update_algorithm_performance_record:
  assumes "algorithm_performance s pt algo_num = Some p"
  shows "algorithm_performance (fst (update_algorithm_performance s pt algo_num b)) pt algo_num
    = Some (fst (record_outcome p b))"
  using assms
  by (simp add: update_algorithm_performance_def Let_def split: option.splits)

lemma push_bounded_length:
  "length xs \<le> cap \<Longrightarrow> length (push_bounded cap v xs) \<le> cap"
  by (simp add: push_bounded_def Let_def)

lemma update_algorithm_trends_bounded:
  assumes "algorithm_trends sw pt algo_num = Some trend"
    and "length trend \<le> 20"
  shows "\<exists>trend'. algorithm_trends (fst (update_algorithm_trends sw pt algo_num v)) pt algo_num
      = Some trend' \<and> length trend' \<le> 20"
  using assms push_bounded_length [of trend 20 v]
  by (simp add: update_algorithm_trends_def Let_def split: option.splits)

section \<open>Properties of the switch decision\<close>

lemma all_declining_iff_nth:
  "all_declining xs \<longleftrightarrow> (\<forall>i. 1 \<le> i \<and> i < length xs \<longrightarrow> xs ! i < xs ! (i - 1))"
proof (induction xs rule: all_declining.induct)
  case (1 x y ys)
  show ?case
  proof
    assume a: "all_declining (x # y # ys)"
    then have yx: "y < x" and rest: "all_declining (y # ys)" by simp_all
    show "\<forall>i. 1 \<le> i \<and> i < length (x # y # ys) \<longrightarrow> (x # y # ys) ! i < (x # y # ys) ! (i - 1)"
    proof (intro allI impI)
      fix i assume i: "1 \<le> i \<and> i < length (x # y # ys)"
      show "(x # y # ys) ! i < (x # y # ys) ! (i - 1)"
      proof (cases "i = 1")
        case True
        with yx show ?thesis by simp
      next
        case False
        with i obtain j where j: "i = Suc j" "1 \<le> j" "j < length (y # ys)"
          by (cases i) auto
        from rest 1 j have "(y # ys) ! j < (y # ys) ! (j - 1)" by blast
        with j show ?thesis by (cases j) simp_all
      qed
    qed
  next
    assume a: "\<forall>i. 1 \<le> i \<and> i < length (x # y # ys) \<longrightarrow> (x # y # ys) ! i < (x # y # ys) ! (i - 1)"
    from a [rule_format, of 1] have yx: "y < x" by simp
    have "\<forall>i. 1 \<le> i \<and> i < length (y # ys) \<longrightarrow> (y # ys) ! i < (y # ys) ! (i - 1)"
    proof (intro allI impI)
      fix i assume i: "1 \<le> i \<and> i < length (y # ys)"
      from a [rule_format, of "Suc i"] i show "(y # ys) ! i < (y # ys) ! (i - 1)"
        by (cases i) simp_all
    qed
    with 1 yx show "all_declining (x # y # ys)" by simp
  qed
qed simp_all

lemma other_algos_nonempty: "filter (\<lambda>algo. algo \<noteq> c) [1, 2, 3::int] \<noteq> []"
  by (cases "c = 1") simp_all

lemma priv_select_in_others:
  "priv_select_next_algorithm pt c pd \<in> {1, 2, 3} \<and> priv_select_next_algorithm pt c pd \<noteq> c"
proof -
  let ?os = "filter (\<lambda>algo. algo \<noteq> c) [1, 2, 3::int]"
  let ?sorted = "sort_key (\<lambda>a. - confidence_key pd a) ?os"
  have ne: "?os \<noteq> []" by (rule other_algos_nonempty)
  then have "?sorted \<noteq> []" by (metis length_sort length_0_conv)
  then obtain a rest where s: "?sorted = a # rest" by (cases ?sorted) auto
  then have "a \<in> set ?sorted" by simp
  then have a: "a \<in> set ?os" by simp
  have r: "priv_select_next_algorithm pt c pd = a"
    using ne s by (simp add: priv_select_next_algorithm_def Let_def)
  from a have "a \<in> {x \<in> set [1, 2, 3]. x \<noteq> c}" by (simp only: set_filter)
  then show ?thesis unfolding r by simp
qed

lemma priv_select_explicit:
  "priv_select_next_algorithm pt 1 pd = (if confidence_key pd 3 \<le> confidence_key pd 2 then 2 else 3)"
  "priv_select_next_algorithm pt 2 pd = (if confidence_key pd 3 \<le> confidence_key pd 1 then 1 else 3)"
  "priv_select_next_algorithm pt 3 pd = (if confidence_key pd 2 \<le> confidence_key pd 1 then 1 else 2)"
  by (simp_all add: priv_select_next_algorithm_def Let_def)

text \<open>
  C10: for a current algorithm among 1, 2 and 3 and any performance data, the fallback
  selection returns an algorithm among 1, 2 and 3 other than the current one, whose
  confidence_score (0 for an algorithm without a record) is the highest among the other
  algorithms, the smaller number winning a tie; the value of the error branch,
  current mod 3 + 1, is also among 1, 2 and 3 and other than the current one.
\<close>

theorem select_next_valid_and_best:
  assumes "current \<in> {1, 2, 3}"
  shows "priv_select_next_algorithm pt current pd \<in> {1, 2, 3}
    \<and> priv_select_next_algorithm pt current pd \<noteq> current
    \<and> (\<forall>a\<in>{1, 2, 3}. a \<noteq> current \<longrightarrow>
          (case pd a of None \<Rightarrow> 0 | Some p \<Rightarrow> confidence_score p)
            \<le> (case pd (priv_select_next_algorithm pt current pd) of
                  None \<Rightarrow> 0 | Some p \<Rightarrow> confidence_score p))
    \<and> (\<forall>a\<in>{1, 2, 3}. a \<noteq> current \<and> a < priv_select_next_algorithm pt current pd \<longrightarrow>
          (case pd a of None \<Rightarrow> 0 | Some p \<Rightarrow> confidence_score p)
            < (case pd (priv_select_next_algorithm pt current pd) of
                  None \<Rightarrow> 0 | Some p \<Rightarrow> confidence_score p))
    \<and> fallback_next_algorithm current \<in> {1, 2, 3}
    \<and> fallback_next_algorithm current \<noteq> current"
proof -
  have k: "confidence_key pd a = (case pd a of None \<Rightarrow> 0 | Some p \<Rightarrow> confidence_score p)" for a
    by (simp add: confidence_key_def)
  from assms consider "current = 1" | "current = 2" | "current = 3" by auto
  then show ?thesis
  proof cases
    case 1
    then show ?thesis
      unfolding k [symmetric] by (simp add: priv_select_explicit fallback_next_algorithm_def)
  next
    case 2
    then show ?thesis
      unfolding k [symmetric] by (simp add: priv_select_explicit fallback_next_algorithm_def)
  next
    case 3
    then show ?thesis
      unfolding k [symmetric] by (simp add: priv_select_explicit fallback_next_algorithm_def)
  qed
qed

theorem select_next_valid_and_best_witness:
  "(1::int) \<in> {1, 2, 3}
   \<and> priv_select_next_algorithm single_double 1
        (perf_table initial_perf (initial_perf\<lparr>confidence_score := 0.7\<rparr>)
           (initial_perf\<lparr>confidence_score := 0.3\<rparr>)) = 2
   \<and> confidence_score (initial_perf\<lparr>confidence_score := 0.3\<rparr>)
        \<le> confidence_score (initial_perf\<lparr>confidence_score := 0.7\<rparr>)
   \<and> priv_select_next_algorithm single_double 1
        (perf_table initial_perf (initial_perf\<lparr>confidence_score := 0.3\<rparr>)
           (initial_perf\<lparr>confidence_score := 0.7\<rparr>)) = 3
   \<and> priv_select_next_algorithm single_double 1
        [(3::int) \<mapsto> initial_perf\<lparr>confidence_score := - 0.1\<rparr>] = 2
   \<and> priv_select_next_algorithm single_double 1
        [(3::int) \<mapsto> initial_perf\<lparr>confidence_score := 0.2\<rparr>] = 3
   \<and> fallback_next_algorithm 1 = 2"
proof -
  let ?pd = "perf_table initial_perf (initial_perf\<lparr>confidence_score := 0.7\<rparr>)
           (initial_perf\<lparr>confidence_score := 0.3\<rparr>)"
  have a: "(1::int) \<in> {1, 2, 3}" by simp
  have two: "?pd 2 = Some (initial_perf\<lparr>confidence_score := 0.7\<rparr>)"
    and three: "?pd 3 = Some (initial_perf\<lparr>confidence_score := 0.3\<rparr>)"
    by (simp_all add: perf_table_def)
  note t = select_next_valid_and_best [OF a, of single_double ?pd]
  from t have r: "priv_select_next_algorithm single_double 1 ?pd \<in> {2, 3}" by auto
  from t have b: "\<forall>a\<in>{1, 2, 3}. a \<noteq> 1 \<longrightarrow>
          (case ?pd a of None \<Rightarrow> 0 | Some p \<Rightarrow> confidence_score p)
            \<le> (case ?pd (priv_select_next_algorithm single_double 1 ?pd) of
                  None \<Rightarrow> 0 | Some p \<Rightarrow> confidence_score p)"
    by blast
  have first: "priv_select_next_algorithm single_double 1 ?pd = 2"
  proof (rule ccontr)
    assume "priv_select_next_algorithm single_double 1 ?pd \<noteq> 2"
    with r have e: "priv_select_next_algorithm single_double 1 ?pd = 3" by simp
    from b [rule_format, of 2] show False unfolding e two three by simp
  qed
  have rest: "priv_select_next_algorithm single_double 1
        (perf_table initial_perf (initial_perf\<lparr>confidence_score := 0.3\<rparr>)
           (initial_perf\<lparr>confidence_score := 0.7\<rparr>)) = 3"
    "priv_select_next_algorithm single_double 1
        [(3::int) \<mapsto> initial_perf\<lparr>confidence_score := - 0.1\<rparr>] = 2"
    "priv_select_next_algorithm single_double 1
        [(3::int) \<mapsto> initial_perf\<lparr>confidence_score := 0.2\<rparr>] = 3"
    "fallback_next_algorithm 1 = 2"
    by (simp_all add: priv_select_explicit confidence_key_def fallback_next_algorithm_def
        perf_table_def)
  from a first rest show ?thesis by simp
qed

text \<open>
  C5: when the record of the current algorithm has fewer than 5 predictions, the switch
  decision returns the current algorithm with the reason "data insufficient" (the code
  points U+6570 U+636E U+4E0D U+8DB3), whatever the other fields, the trends, the random
  draw and the category are.
\<close>

theorem insufficient_data_keeps_current:
  assumes "perf_data current_algo = Some p"
    and "total_predictions p < 5"
  shows "should_switch_algorithm sw rnd pt current_algo perf_data = (current_algo, DataInsufficient)
    \<and> reason_literal (snd (should_switch_algorithm sw rnd pt current_algo perf_data))
        = [0x6570, 0x636E, 0x4E0D, 0x8DB3]"
  using assms
  by (simp add: should_switch_algorithm_def min_predictions_before_switch_def)

theorem insufficient_data_keeps_current_witness:
  "perf_table sparse_perf initial_perf initial_perf 1 = Some sparse_perf
   \<and> total_predictions sparse_perf < 5
   \<and> should_switch_algorithm initial_switcher 0 kill_group 1
        (perf_table sparse_perf initial_perf initial_perf)
      = (1, DataInsufficient)"
  using insufficient_data_keeps_current [where
      perf_data = "perf_table sparse_perf initial_perf initial_perf"
      and current_algo = 1 and p = sparse_perf
      and sw = initial_switcher and rnd = 0 and pt = kill_group]
  by (simp add: perf_table_def sparse_perf_def)

text \<open>
  C6: with current algorithm 1 whose record has total_predictions = 10,
  correct_predictions = 2, recent_results = [0,0,0,0,1] and consecutive_wrong = 3, the
  switch decision returns an algorithm other than 1 and the reason "too many consecutive
  errors: 3", whose text starts with the code points U+8FDE U+7EED U+9519 U+8BEF.
\<close>

theorem consecutive_errors_scenario:
  assumes "perf_data 1 = Some p"
    and "total_predictions p = 10"
    and "correct_predictions p = 2"
    and "recent_results p = [0, 0, 0, 0, 1]"
    and "consecutive_wrong p = 3"
  shows "fst (should_switch_algorithm sw rnd pt 1 perf_data) \<in> {2, 3}
    \<and> fst (should_switch_algorithm sw rnd pt 1 perf_data) \<noteq> 1
    \<and> snd (should_switch_algorithm sw rnd pt 1 perf_data) = TooManyConsecutiveErrors 3
    \<and> take 4 (reason_literal (snd (should_switch_algorithm sw rnd pt 1 perf_data)))
        = [0x8FDE, 0x7EED, 0x9519, 0x8BEF]"
proof -
  have r: "should_switch_algorithm sw rnd pt 1 perf_data
      = (priv_select_next_algorithm pt 1 perf_data, TooManyConsecutiveErrors 3)"
    using assms
    by (simp add: should_switch_algorithm_def min_predictions_before_switch_def
        max_consecutive_errors_def)
  from priv_select_in_others [of pt 1 perf_data]
  show ?thesis unfolding r by auto
qed

theorem consecutive_errors_scenario_witness:
  "(perf_table scenario_perf initial_perf initial_perf) 1 = Some scenario_perf
   \<and> total_predictions scenario_perf = 10
   \<and> correct_predictions scenario_perf = 2
   \<and> recent_results scenario_perf = [0, 0, 0, 0, 1]
   \<and> consecutive_wrong scenario_perf = 3
   \<and> should_switch_algorithm initial_switcher 0.5 single_double 1
        (perf_table scenario_perf initial_perf initial_perf)
      = (2, TooManyConsecutiveErrors 3)"
proof -
  have k: "priv_select_next_algorithm single_double 1
        (perf_table scenario_perf initial_perf initial_perf) = 2"
    by (simp add: priv_select_explicit confidence_key_def perf_table_def)
  have s: "should_switch_algorithm initial_switcher 0.5 single_double 1
        (perf_table scenario_perf initial_perf initial_perf)
      = (priv_select_next_algorithm single_double 1
           (perf_table scenario_perf initial_perf initial_perf),
         TooManyConsecutiveErrors 3)"
    by (simp add: should_switch_algorithm_def scenario_perf_def perf_table_def
        min_predictions_before_switch_def max_consecutive_errors_def)
  from consecutive_errors_scenario [where
      perf_data = "perf_table scenario_perf initial_perf initial_perf"
      and p = scenario_perf and sw = initial_switcher and rnd = "0.5" and pt = single_double]
  show ?thesis unfolding s k by (simp add: scenario_perf_def perf_table_def)
qed

text \<open>
  C4, as the code has it: when the earlier rules do not fire, the decision switches to
  another algorithm with the reason "performance persistently declining" if the trend
  series of the current algorithm has at least 3 points and every point of the whole
  series is below the one before it, and otherwise never gives that reason.
\<close>

theorem persistent_decline_rule:
  assumes "perf_data current_algo = Some p"
    and "5 \<le> total_predictions p"
    and "consecutive_wrong p < 3"
    and "0.4 \<le> confidence_score p"
    and "0.4 \<le> recent_success_rate p"
    and "algorithm_trends sw pt current_algo = Some trend"
  shows "(3 \<le> length trend \<and> all_declining trend \<longrightarrow>
            should_switch_algorithm sw rnd pt current_algo perf_data
              = (priv_select_next_algorithm pt current_algo perf_data, PerformanceDeclining)
            \<and> fst (should_switch_algorithm sw rnd pt current_algo perf_data) \<noteq> current_algo)
    \<and> (\<not> (3 \<le> length trend \<and> all_declining trend) \<longrightarrow>
            snd (should_switch_algorithm sw rnd pt current_algo perf_data) \<noteq> PerformanceDeclining)"
proof -
  have ne: "priv_select_next_algorithm pt current_algo perf_data \<noteq> current_algo"
    using priv_select_in_others [of pt current_algo perf_data] by simp
  show ?thesis
    using assms ne
    by (simp add: should_switch_algorithm_def min_predictions_before_switch_def
        max_consecutive_errors_def min_confidence_score_def min_recent_success_rate_def
        Let_def)
qed

theorem persistent_decline_rule_witness:
  "should_switch_algorithm (trends_of [0.9, 0.8, 0.7]) 0.5 single_double 1
        (perf_table steady_perf initial_perf initial_perf)
      = (2, PerformanceDeclining)"
proof -
  have k: "priv_select_next_algorithm single_double 1
        (perf_table steady_perf initial_perf initial_perf) = 2"
    by (simp add: priv_select_explicit confidence_key_def perf_table_def)
  from persistent_decline_rule [where
      perf_data = "perf_table steady_perf initial_perf initial_perf"
      and current_algo = 1 and p = steady_perf and sw = "trends_of [0.9, 0.8, 0.7]"
      and pt = single_double and trend = "[0.9, 0.8, 0.7]" and rnd = "0.5"]
  show ?thesis unfolding k
    by (simp add: steady_perf_def trends_of_def initial_switcher_def perf_table_def)
qed

text \<open>
  C4 as stated fails: three declines at the end of a series whose first step rises do
  not trigger the rule; the decision keeps algorithm 1.
\<close>

theorem declining_tail_counterexample:
  "ends_with_three_declines [0.5, 0.9, 0.8, 0.7, 0.6]
   \<and> should_switch_algorithm (trends_of [0.5, 0.9, 0.8, 0.7, 0.6]) 0.5 single_double 1
        (perf_table steady_perf initial_perf initial_perf)
      = (1, RunningNormally)"
  by (simp add: ends_with_three_declines_def should_switch_algorithm_def steady_perf_def
      perf_table_def
      trends_of_def initial_switcher_def min_predictions_before_switch_def
      max_consecutive_errors_def min_confidence_score_def min_recent_success_rate_def
      exploration_probability_def exploration_threshold_def)

section \<open>Properties of the forecast\<close>

lemma switch_step_history:
  "algorithm_switch_history (algorithm_switcher (fst (switch_step rnd s pt)))
     = algorithm_switch_history (algorithm_switcher s)"
  by (simp add: switch_step_def Let_def reset_forced_exploration_def)

lemma switch_step_cache:
  "prediction_cache (fst (switch_step rnd s pt)) = prediction_cache s"
  by (simp add: switch_step_def Let_def)

lemma switch_step_forecast_calls:
  "forecast_calls (fst (switch_step rnd s pt)) = forecast_calls s"
  by (simp add: switch_step_def Let_def)

lemma calculate_prediction_history:
  "algorithm_switch_history
     (algorithm_switcher (snd (calculate_prediction predict rnd read_ok write_ok s records pt)))
     = algorithm_switch_history (algorithm_switcher s)"
  by (simp add: calculate_prediction_def Let_def switch_step_history cache_prediction_def
      split: option.splits)

lemma append_switch_history_length:
  "length (algorithm_switch_history sw pt) < 50 \<Longrightarrow>
   length (algorithm_switch_history (append_switch_history sw pt r) pt)
     = Suc (length (algorithm_switch_history sw pt))"
  by (simp add: append_switch_history_def push_bounded_def Let_def)

lemma failing_switch_step:
  "switch_step rnd (failing_predictor\<lparr>switch_counters := (switch_counters failing_predictor)
        (single_double := switch_counters failing_predictor single_double + 1)\<rparr>) single_double
   = (failing_predictor\<lparr>switch_counters := (switch_counters failing_predictor)
        (single_double := switch_counters failing_predictor single_double + 1),
        current_algorithms := (current_algorithms failing_predictor)(single_double := 2)\<rparr>,
      2, SwitchInfo 1 2 (TooManyConsecutiveErrors 3))"
proof -
  have k: "priv_select_next_algorithm single_double 1
        (perf_table scenario_perf initial_perf initial_perf) = 2"
    by (simp add: priv_select_explicit confidence_key_def perf_table_def)
  have d0: "should_switch_algorithm initial_switcher rnd single_double 1
        (perf_table scenario_perf initial_perf initial_perf)
      = (priv_select_next_algorithm single_double 1
           (perf_table scenario_perf initial_perf initial_perf), TooManyConsecutiveErrors 3)"
    by (simp add: should_switch_algorithm_def scenario_perf_def perf_table_def
        min_predictions_before_switch_def max_consecutive_errors_def)
  have d: "should_switch_algorithm initial_switcher rnd single_double 1
        (perf_table scenario_perf initial_perf initial_perf) = (2, TooManyConsecutiveErrors 3)"
    unfolding d0 k ..
  show ?thesis
    by (simp add: switch_step_def failing_predictor_def initial_predictor_def d Let_def)
qed

text \<open>
  C1 at a concrete state: algorithm 1 of the category single_double has 10 predictions
  and 3 consecutive wrong ones. Whatever the store does, the forecast changes the current
  selection from 1 to 2 and reports the switch in its result, and the switch history of
  the category is empty before and after.
\<close>

theorem switch_without_switch_event:
  "current_algorithms failing_predictor single_double = 1
   \<and> current_algorithms
        (snd (calculate_prediction constant_forecaster 0.5 read_ok write_ok failing_predictor
                one_record single_double)) single_double = 2
   \<and> fst (calculate_prediction constant_forecaster 0.5 read_ok write_ok failing_predictor
             one_record single_double)
       = Some \<lparr>qihao = 3301235, prediction = ''D'', prediction_type = single_double,
               algorithm_used = (single_double, 2),
               switch_info = SwitchInfo 1 2 (TooManyConsecutiveErrors 3)\<rparr>
   \<and> algorithm_switch_history (algorithm_switcher failing_predictor) single_double = []
   \<and> algorithm_switch_history
        (algorithm_switcher
           (snd (calculate_prediction constant_forecaster 0.5 read_ok write_ok failing_predictor
                   one_record single_double))) single_double = []"
proof -
  have n: "next_qihao_of one_record = Some 3301235"
    by (simp add: next_qihao_of_def one_record_def)
  have c: "get_cached_prediction read_ok failing_predictor 3301235 single_double = None"
    by (simp add: get_cached_prediction_def failing_predictor_def initial_predictor_def)
  have s: "current_algorithms
        (snd (calculate_prediction constant_forecaster 0.5 read_ok write_ok failing_predictor
                one_record single_double)) single_double = 2"
    by (simp add: calculate_prediction_def n c failing_switch_step Let_def
        constant_forecaster_def cache_prediction_def)
  have h0: "algorithm_switch_history (algorithm_switcher failing_predictor) single_double = []"
    by (simp add: failing_predictor_def initial_predictor_def initial_switcher_def)
  have i: "current_algorithms failing_predictor single_double = 1"
    by (simp add: failing_predictor_def initial_predictor_def)
  have sw: "fst (calculate_prediction constant_forecaster 0.5 read_ok write_ok failing_predictor
             one_record single_double)
       = Some \<lparr>qihao = 3301235, prediction = ''D'', prediction_type = single_double,
               algorithm_used = (single_double, 2),
               switch_info = SwitchInfo 1 2 (TooManyConsecutiveErrors 3)\<rparr>"
    by (simp add: calculate_prediction_def n c failing_switch_step Let_def
        constant_forecaster_def)
  from i s sw h0 show ?thesis
    by (simp only: calculate_prediction_history simp_thms)
qed

lemma cache_hit:
  assumes "next_qihao_of records = Some q"
    and "prediction_cache s (q, pt) = Some row"
  shows "calculate_prediction predict rnd True write_ok s records pt
    = (Some \<lparr>qihao = q, prediction = cached_prediction row, prediction_type = pt,
             algorithm_used = cached_algorithm_used row, switch_info = NoneValue\<rparr>, s)"
  using assms by (simp add: calculate_prediction_def get_cached_prediction_def)

lemma cache_miss_calls_forecaster:
  assumes "next_qihao_of records = Some q"
    and "get_cached_prediction read_ok s q pt = None"
  shows "forecast_calls (snd (calculate_prediction predict rnd read_ok write_ok s records pt))
    = forecast_calls s + 1"
  using assms
  by (simp add: calculate_prediction_def Let_def cache_prediction_def
      switch_step_forecast_calls split: option.splits)

lemma calculate_prediction_other_row:
  assumes "next_qihao_of records \<noteq> Some q \<or> pt \<noteq> pt'"
  shows "prediction_cache (snd (calculate_prediction predict rnd read_ok write_ok s records pt))
           (q, pt') = prediction_cache s (q, pt')"
  using assms
  by (auto simp: calculate_prediction_def Let_def cache_prediction_def switch_step_cache
      split: option.splits)

lemma update_algorithm_performance_cache:
  "prediction_cache (fst (update_algorithm_performance s pt algo_num b)) = prediction_cache s"
  by (simp add: update_algorithm_performance_def Let_def split: option.splits)

lemma apply_event_keeps_row:
  assumes "keeps_row (q, pt) ev"
    and "prediction_cache s (q, pt) = Some row"
  shows "prediction_cache (apply_event s ev) (q, pt) = Some row"
proof (cases ev)
  case (Verification pt' algo_num b)
  with assms(2) show ?thesis by (simp add: update_algorithm_performance_cache)
next
  case (Forecast predict rnd read_ok write_ok records pt')
  show ?thesis
  proof (cases "next_qihao_of records = Some q \<and> pt' = pt")
    case True
    with assms(1) Forecast have "read_ok" by simp
    with True assms(2) Forecast show ?thesis by (simp add: cache_hit)
  next
    case False
    then have "next_qihao_of records \<noteq> Some q \<or> pt' \<noteq> pt" by blast
    from calculate_prediction_other_row [OF this] assms(2) Forecast
    show ?thesis by simp
  qed
qed

lemma apply_events_keep_row:
  assumes "list_all (keeps_row (q, pt)) evs"
    and "prediction_cache s (q, pt) = Some row"
  shows "prediction_cache (apply_events s evs) (q, pt) = Some row"
  using assms
proof (induction evs arbitrary: s)
  case Nil
  then show ?case by simp
next
  case (Cons ev evs)
  from Cons.prems have "keeps_row (q, pt) ev" and rest: "list_all (keeps_row (q, pt)) evs"
    by simp_all
  from apply_event_keeps_row [OF this(1) Cons.prems(2)]
  have "prediction_cache (apply_event s ev) (q, pt) = Some row" .
  from Cons.IH [OF rest this] show ?case by simp
qed

lemma returned_forecast_is_stored:
  assumes "calculate_prediction predict rnd read_ok True s records pt = (Some r, s')"
  shows "next_qihao_of records = Some (qihao r)
    \<and> prediction_type r = pt
    \<and> prediction_cache s' (qihao r, pt)
        = Some \<lparr>cached_prediction = prediction r, cached_algorithm_used = algorithm_used r\<rparr>"
proof -
  from assms obtain q where q: "next_qihao_of records = Some q"
    by (auto simp: calculate_prediction_def split: option.splits)
  show ?thesis
  proof (cases "get_cached_prediction read_ok s q pt")
    case (Some row)
    with assms q have "s' = s"
      and r: "r = \<lparr>qihao = q, prediction = cached_prediction row, prediction_type = pt,
                   algorithm_used = cached_algorithm_used row, switch_info = NoneValue\<rparr>"
      by (auto simp: calculate_prediction_def)
    moreover from Some have "prediction_cache s (q, pt) = Some row"
      by (simp add: get_cached_prediction_def split: if_splits)
    ultimately show ?thesis using q by simp
  next
    case None
    with assms q show ?thesis
      by (auto simp: calculate_prediction_def Let_def cache_prediction_def
          split: option.splits if_splits)
  qed
qed

text \<open>
  C3, as the code has it: when a forecast call returned a result and the store performed
  the cache write of that call, then after any verifications and any forecast calls that
  do not compute that period and category anew, a forecast call for the same category on
  a history with the same latest period, whose cache read the store answers, returns the
  same period, forecast text, category and algorithm with switch_info bound to None,
  leaves the state as it is and calls no forecasting function, whatever forecasting
  function and random draw it is given.
\<close>

theorem cached_forecast_replayed:
  assumes "calculate_prediction predict1 rnd1 read_ok1 True s records pt = (Some r1, s1)"
    and "list_all (keeps_row (qihao r1, pt)) events"
    and "next_qihao_of records2 = Some (qihao r1)"
  shows "calculate_prediction predict2 rnd2 True write_ok2 (apply_events s1 events) records2 pt
           = (Some (r1\<lparr>switch_info := NoneValue\<rparr>), apply_events s1 events)
    \<and> forecast_calls
        (snd (calculate_prediction predict2 rnd2 True write_ok2 (apply_events s1 events)
                records2 pt))
        = forecast_calls (apply_events s1 events)"
proof -
  note st = returned_forecast_is_stored [OF assms(1)]
  from st have row: "prediction_cache s1 (qihao r1, pt)
      = Some \<lparr>cached_prediction = prediction r1, cached_algorithm_used = algorithm_used r1\<rparr>"
    by blast
  from st have ty: "prediction_type r1 = pt" by blast
  note kept = apply_events_keep_row [OF assms(2) row]
  have "calculate_prediction predict2 rnd2 True write_ok2 (apply_events s1 events) records2 pt
      = (Some \<lparr>qihao = qihao r1, prediction = prediction r1, prediction_type = pt,
               algorithm_used = algorithm_used r1, switch_info = NoneValue\<rparr>,
         apply_events s1 events)"
    using cache_hit [OF assms(3) kept] by simp
  moreover have "\<lparr>qihao = qihao r1, prediction = prediction r1, prediction_type = pt,
               algorithm_used = algorithm_used r1, switch_info = NoneValue\<rparr>
      = r1\<lparr>switch_info := NoneValue\<rparr>"
    using ty by simp
  ultimately show ?thesis by simp
qed

lemma first_forecast:
  "calculate_prediction constant_forecaster rnd read_ok write_ok initial_predictor one_record
     kill_group
   = (Some \<lparr>qihao = 3301235, prediction = ''D'', prediction_type = kill_group,
            algorithm_used = (kill_group, 1), switch_info = KeyAbsent\<rparr>,
      snd (calculate_prediction constant_forecaster rnd read_ok write_ok initial_predictor
             one_record kill_group))"
proof -
  have n: "next_qihao_of one_record = Some 3301235"
    by (simp add: next_qihao_of_def one_record_def)
  have c: "get_cached_prediction read_ok initial_predictor 3301235 kill_group = None"
    by (simp add: get_cached_prediction_def initial_predictor_def)
  have d: "should_switch_algorithm sw rnd kill_group 1
        [1 \<mapsto> initial_perf, 2 \<mapsto> initial_perf, 3 \<mapsto> initial_perf] = (1, DataInsufficient)"
    for sw
    by (simp add: should_switch_algorithm_def initial_perf_def min_predictions_before_switch_def)
  have st: "switch_step rnd (initial_predictor\<lparr>switch_counters :=
        (switch_counters initial_predictor)
        (kill_group := switch_counters initial_predictor kill_group + 1)\<rparr>) kill_group
      = (initial_predictor\<lparr>switch_counters :=
        (switch_counters initial_predictor)
        (kill_group := switch_counters initial_predictor kill_group + 1)\<rparr>, 1, KeyAbsent)"
    by (simp add: switch_step_def initial_predictor_def d Let_def)
  show ?thesis
    by (simp add: calculate_prediction_def n c st Let_def constant_forecaster_def)
qed

theorem cached_forecast_replayed_witness:
  "list_all (keeps_row (3301235, kill_group)) between_events
   \<and> next_qihao_of longer_history = Some 3301235
   \<and> fst (calculate_prediction constant_forecaster 0.9 True False
          (apply_events
             (snd (calculate_prediction constant_forecaster 0.5 True True initial_predictor
                     one_record kill_group))
             between_events)
          longer_history kill_group)
     = Some \<lparr>qihao = 3301235, prediction = ''D'', prediction_type = kill_group,
             algorithm_used = (kill_group, 1), switch_info = NoneValue\<rparr>"
proof -
  have n1: "next_qihao_of one_record = Some 3301235"
    by (simp add: next_qihao_of_def one_record_def)
  have n2: "next_qihao_of longer_history = Some 3301235"
    by (simp add: next_qihao_of_def longer_history_def)
  have k: "list_all (keeps_row (3301235, kill_group)) between_events"
    by (simp add: between_events_def)
  have k': "list_all (keeps_row
        (qihao \<lparr>qihao = 3301235, prediction = ''D'', prediction_type = kill_group,
            algorithm_used = (kill_group, 1), switch_info = KeyAbsent\<rparr>, kill_group))
        between_events"
    using k by simp
  have n2': "next_qihao_of longer_history
      = Some (qihao \<lparr>qihao = 3301235, prediction = ''D'', prediction_type = kill_group,
            algorithm_used = (kill_group, 1), switch_info = KeyAbsent\<rparr>)"
    using n2 by simp
  from cached_forecast_replayed [OF first_forecast k' n2', of constant_forecaster "0.9" False]
  have "fst (calculate_prediction constant_forecaster 0.9 True False
          (apply_events
             (snd (calculate_prediction constant_forecaster 0.5 True True initial_predictor
                     one_record kill_group))
             between_events)
          longer_history kill_group)
     = Some \<lparr>qihao = 3301235, prediction = ''D'', prediction_type = kill_group,
             algorithm_used = (kill_group, 1), switch_info = NoneValue\<rparr>"
    by simp
  with k n2 show ?thesis by blast
qed

text \<open>
  C3 as stated fails: the first call of a period returns a dictionary without the key
  switch_info, the call served from the cache one with switch_info bound to None.
\<close>

theorem cached_output_differs_counterexample:
  "fst (calculate_prediction constant_forecaster 0.5 True True initial_predictor one_record
          kill_group)
     = Some \<lparr>qihao = 3301235, prediction = ''D'', prediction_type = kill_group,
             algorithm_used = (kill_group, 1), switch_info = KeyAbsent\<rparr>
   \<and> fst (calculate_prediction constant_forecaster 0.5 True True
          (snd (calculate_prediction constant_forecaster 0.5 True True initial_predictor
                  one_record kill_group))
          one_record kill_group)
     = Some \<lparr>qihao = 3301235, prediction = ''D'', prediction_type = kill_group,
             algorithm_used = (kill_group, 1), switch_info = NoneValue\<rparr>
   \<and> fst (calculate_prediction constant_forecaster 0.5 True True initial_predictor one_record
          kill_group)
   \<noteq> fst (calculate_prediction constant_forecaster 0.5 True True
          (snd (calculate_prediction constant_forecaster 0.5 True True initial_predictor
                  one_record kill_group))
          one_record kill_group)"
proof -
  have n: "next_qihao_of one_record = Some 3301235"
    by (simp add: next_qihao_of_def one_record_def)
  note f = first_forecast [of "0.5" True True]
  from returned_forecast_is_stored [OF f]
  have c: "prediction_cache
        (snd (calculate_prediction constant_forecaster 0.5 True True initial_predictor
                one_record kill_group))
        (3301235, kill_group)
      = Some \<lparr>cached_prediction = ''D'', cached_algorithm_used = (kill_group, 1)\<rparr>"
    by simp
  have f1: "fst (calculate_prediction constant_forecaster 0.5 True True initial_predictor
          one_record kill_group)
     = Some \<lparr>qihao = 3301235, prediction = ''D'', prediction_type = kill_group,
             algorithm_used = (kill_group, 1), switch_info = KeyAbsent\<rparr>"
    by (subst f) simp
  have g: "fst (calculate_prediction constant_forecaster 0.5 True True
          (snd (calculate_prediction constant_forecaster 0.5 True True initial_predictor
                  one_record kill_group))
          one_record kill_group)
      = Some \<lparr>qihao = 3301235, prediction = ''D'', prediction_type = kill_group,
           algorithm_used = (kill_group, 1), switch_info = NoneValue\<rparr>"
    using cache_hit [OF n c, of constant_forecaster "0.5" True] by simp
  show ?thesis unfolding f1 g by simp
qed

section \<open>Properties of the Q-value update\<close>

lemma ensure_rows_apply:
  "ensure_rows q state next_state s =
     (if (s = state \<or> s = next_state) \<and> q s = None then Some initial_row else q s)"
  by (auto simp: ensure_rows_def Let_def split: option.splits)

lemma initial_row_complete: "\<forall>a\<in>{1, 2, 3}. map_of initial_row a \<noteq> None"
  unfolding map_of_eq_None_iff initial_row_def by simp

lemma ensure_rows_complete:
  assumes "q_rows_complete q"
  shows "q_rows_complete (ensure_rows q state next_state)"
  unfolding q_rows_complete_def
proof (intro allI impI)
  fix s row
  assume r: "ensure_rows q state next_state s = Some row"
  show "\<forall>a\<in>{1, 2, 3}. map_of row a \<noteq> None"
  proof (cases "(s = state \<or> s = next_state) \<and> q s = None")
    case True
    with r have "row = initial_row" by (simp add: ensure_rows_apply)
    then show ?thesis using initial_row_complete by simp
  next
    case False
    with r have "q s = Some row" by (simp add: ensure_rows_apply)
    with assms show ?thesis unfolding q_rows_complete_def by blast
  qed
qed

lemma foldl_max_Max: "foldl max v vs = Max (set (v # vs))" for v :: real
proof -
  have "(\<lambda>x s. max s x) = (max :: real \<Rightarrow> real \<Rightarrow> real)"
    by (intro ext) (rule max.commute)
  then have "foldl max v vs = fold max vs v" by (simp add: foldl_conv_fold)
  also have "\<dots> = Max (set (v # vs))" by (rule Max.set_eq_fold [symmetric])
  finally show ?thesis .
qed

lemma update_q_values_complete_rows:
  assumes "ensure_rows (q_table L) state next_state state = Some row"
    and "ensure_rows (q_table L) state next_state next_state = Some next_row"
    and "next_row \<noteq> []"
  shows "update_q_values L state action reward next_state =
     L\<lparr>q_table := (ensure_rows (q_table L) state next_state)
          (state \<mapsto> AList.update action
             ((case map_of row action of None \<Rightarrow> 0.5 | Some v \<Rightarrow> v)
              + learning_rate L * (reward + discount_factor L * Max (snd ` set next_row)
                 - (case map_of row action of None \<Rightarrow> 0.5 | Some v \<Rightarrow> v))) row)\<rparr>"
proof -
  from assms(3) obtain v vs where m: "map snd next_row = v # vs"
    by (cases next_row) auto
  have mx: "foldl max v vs = Max (snd ` set next_row)"
    unfolding foldl_max_Max m [symmetric] by simp
  show ?thesis
    using assms(1,2) m mx by (simp add: update_q_values_def Let_def)
qed

text \<open>
  C7: on a table whose rows have a value for each of the algorithms 1, 2 and 3, and for
  an action among them, the update first creates the missing rows of the state and of
  the next state with 0.5 for each algorithm, then sets Q[state][action] to
  Q[state][action] + learning_rate * (reward + discount_factor * max(Q[next_state].values())
  - Q[state][action]), and changes no other entry and no learning parameter.
\<close>

theorem q_update_one_step:
  assumes "q_rows_complete (q_table L)"
    and "action \<in> {1, 2, 3}"
  shows "\<exists>cur next_row.
      q_entry (ensure_rows (q_table L) state next_state) state action = Some cur
    \<and> ensure_rows (q_table L) state next_state next_state = Some next_row
    \<and> next_row \<noteq> []
    \<and> q_entry (q_table (update_q_values L state action reward next_state)) state action
        = Some (cur + learning_rate L
                  * (reward + discount_factor L * Max (snd ` set next_row) - cur))
    \<and> (\<forall>s a. (s, a) \<noteq> (state, action) \<longrightarrow>
          q_entry (q_table (update_q_values L state action reward next_state)) s a
            = q_entry (ensure_rows (q_table L) state next_state) s a)
    \<and> (\<forall>s. ensure_rows (q_table L) state next_state s =
          (if (s = state \<or> s = next_state) \<and> q_table L s = None
           then Some initial_row else q_table L s))
    \<and> learning_rate (update_q_values L state action reward next_state) = learning_rate L
    \<and> discount_factor (update_q_values L state action reward next_state) = discount_factor L
    \<and> exploration_rate (update_q_values L state action reward next_state) = exploration_rate L"
proof -
  let ?q2 = "ensure_rows (q_table L) state next_state"
  have c2: "q_rows_complete ?q2" using assms(1) by (rule ensure_rows_complete)
  have "?q2 state \<noteq> None" by (simp add: ensure_rows_apply)
  then obtain row where row: "?q2 state = Some row" by auto
  have "?q2 next_state \<noteq> None" by (simp add: ensure_rows_apply)
  then obtain next_row where nrow: "?q2 next_state = Some next_row" by auto
  from c2 row assms(2) have "map_of row action \<noteq> None"
    unfolding q_rows_complete_def by blast
  then obtain cur where cur: "map_of row action = Some cur" by auto
  from c2 nrow have "map_of next_row 1 \<noteq> None"
    unfolding q_rows_complete_def by blast
  then have ne: "next_row \<noteq> []" by auto
  note u = update_q_values_complete_rows [OF row nrow ne, of action reward]
  have e1: "q_entry ?q2 state action = Some cur"
    using row cur by (simp add: q_entry_def)
  have e2: "q_entry (q_table (update_q_values L state action reward next_state)) state action
        = Some (cur + learning_rate L
                  * (reward + discount_factor L * Max (snd ` set next_row) - cur))"
    unfolding u using cur by (simp add: q_entry_def update_conv')
  have e3: "q_entry (q_table (update_q_values L state action reward next_state)) s a
            = q_entry ?q2 s a" if "(s, a) \<noteq> (state, action)" for s a
    unfolding u using that row by (auto simp: q_entry_def update_conv')
  have e4: "\<forall>s. ?q2 s =
          (if (s = state \<or> s = next_state) \<and> q_table L s = None
           then Some initial_row else q_table L s)"
    by (simp add: ensure_rows_apply)
  have e5: "learning_rate (update_q_values L state action reward next_state) = learning_rate L"
    "discount_factor (update_q_values L state action reward next_state) = discount_factor L"
    "exploration_rate (update_q_values L state action reward next_state) = exploration_rate L"
    unfolding u by simp_all
  from e1 nrow ne e2 e3 e4 e5 show ?thesis by blast
qed

theorem q_update_one_step_witness:
  "q_rows_complete (q_table initial_learner)
   \<and> (2::int) \<in> {1, 2, 3}
   \<and> q_entry (q_table (update_q_values initial_learner ''s0'' 2 1.5 ''s1'')) ''s0'' 2
       = Some 0.57375
   \<and> q_entry (q_table (update_q_values initial_learner ''s0'' 2 1.5 ''s1'')) ''s0'' 1
       = Some 0.5
   \<and> q_entry (q_table (update_q_values initial_learner ''s0'' 2 1.5 ''s1'')) ''s1'' 3
       = Some 0.5"
proof -
  have h: "q_rows_complete (q_table initial_learner)"
    by (simp add: q_rows_complete_def initial_learner_def)
  have a: "(2::int) \<in> {1, 2, 3}" by simp
  have q2: "ensure_rows (q_table initial_learner) ''s0'' ''s1''
      = [''s0'' \<mapsto> initial_row, ''s1'' \<mapsto> initial_row]"
    by (simp add: ensure_rows_def initial_learner_def Let_def)
  from q_update_one_step [OF h a, of "''s0''" "''s1''" "1.5"]
  obtain cur next_row where
    c: "q_entry (ensure_rows (q_table initial_learner) ''s0'' ''s1'') ''s0'' 2 = Some cur"
    and n: "ensure_rows (q_table initial_learner) ''s0'' ''s1'' ''s1'' = Some next_row"
    and v: "q_entry (q_table (update_q_values initial_learner ''s0'' 2 1.5 ''s1'')) ''s0'' 2
        = Some (cur + learning_rate initial_learner
             * (1.5 + discount_factor initial_learner * Max (snd ` set next_row) - cur))"
    and o: "\<forall>s a. (s, a) \<noteq> (''s0'', 2) \<longrightarrow>
          q_entry (q_table (update_q_values initial_learner ''s0'' 2 1.5 ''s1'')) s a
            = q_entry (ensure_rows (q_table initial_learner) ''s0'' ''s1'') s a"
    by blast
  from c have cur: "cur = 0.5" by (simp add: q2 q_entry_def initial_row_def)
  from n have nr: "next_row = initial_row" by (simp add: q2)
  have v': "q_entry (q_table (update_q_values initial_learner ''s0'' 2 1.5 ''s1'')) ''s0'' 2
       = Some 0.57375"
    unfolding v cur nr by (simp add: initial_row_def initial_learner_def)
  from o have o1: "q_entry (q_table (update_q_values initial_learner ''s0'' 2 1.5 ''s1'')) ''s0'' 1
       = Some 0.5"
    by (simp add: q2 q_entry_def initial_row_def)
  from o have o2: "q_entry (q_table (update_q_values initial_learner ''s0'' 2 1.5 ''s1'')) ''s1'' 3
       = Some 0.5"
    by (simp add: q2 q_entry_def initial_row_def)
  from h a v' o1 o2 show ?thesis by blast
qed

lemma update_q_values_keeps_rows_complete:
  assumes "q_rows_complete (q_table L)"
  shows "q_rows_complete (q_table (update_q_values L state action reward next_state))"
proof -
  let ?q2 = "ensure_rows (q_table L) state next_state"
  have c2: "q_rows_complete ?q2" using assms by (rule ensure_rows_complete)
  have "?q2 state \<noteq> None" by (simp add: ensure_rows_apply)
  then obtain row where row: "?q2 state = Some row" by auto
  have "?q2 next_state \<noteq> None" by (simp add: ensure_rows_apply)
  then obtain next_row where nrow: "?q2 next_state = Some next_row" by auto
  from c2 nrow have "map_of next_row 1 \<noteq> None"
    unfolding q_rows_complete_def by blast
  then have ne: "next_row \<noteq> []" by auto
  note u = update_q_values_complete_rows [OF row nrow ne, of action reward]
  from c2 row have r: "\<forall>a\<in>{1, 2, 3}. map_of row a \<noteq> None"
    unfolding q_rows_complete_def by blast
  show ?thesis
    unfolding u q_rows_complete_def
  proof (intro allI impI)
    fix s r'
    assume "q_table (L\<lparr>q_table := ?q2(state \<mapsto> AList.update action
             ((case map_of row action of None \<Rightarrow> 0.5 | Some v \<Rightarrow> v)
              + learning_rate L * (reward + discount_factor L * Max (snd ` set next_row)
                 - (case map_of row action of None \<Rightarrow> 0.5 | Some v \<Rightarrow> v))) row)\<rparr>) s = Some r'"
    then have "(s = state \<and> (\<exists>x. r' = AList.update action x row)) \<or> ?q2 s = Some r'"
      by (auto split: if_splits)
    then show "\<forall>a\<in>{1, 2, 3}. map_of r' a \<noteq> None"
    proof
      assume "s = state \<and> (\<exists>x. r' = AList.update action x row)"
      then obtain x where "r' = AList.update action x row" by blast
      with r show ?thesis by (simp add: update_conv')
    next
      assume "?q2 s = Some r'"
      with c2 show ?thesis unfolding q_rows_complete_def by blast
    qed
  qed
qed

end
